theory Spec2Isabelle
  imports Main "HOL-Library.Sublist"
begin

section \<open>The Magbead instrument: data model\<close>

text \<open>
  The development follows \<^verbatim>\<open>src/opentrons/instruments/magbead.py\<close>. The class
  \<^verbatim>\<open>Magbead\<close> is a thin facade over three collaborators that are imported by the
  file but defined elsewhere: the \<^verbatim>\<open>Robot\<close> singleton (instrument registry,
  mosfet lookup, command queue), the \<^verbatim>\<open>Instrument\<close> base class
  (\<^verbatim>\<open>create_command\<close>, \<^verbatim>\<open>init_calibrations\<close>, \<^verbatim>\<open>load_persisted_data\<close>) and the
  mosfet object behind \<^verbatim>\<open>self.motor\<close>. Everything written in the file itself is
  translated line by line; the collaborators are modelled from the specification and
  are marked as such. Exceptions raised inside a collaborator (a hardware fault, an
  unknown slot) are outside the file and outside this model: every statement below is
  about calls that the collaborators complete.
\<close>

subsection \<open>Python's rendering of an integer\<close>

text \<open>
  \<^verbatim>\<open>'M{}'.format(mosfet)\<close> renders the slot index with Python's \<^verbatim>\<open>str\<close> on
  integers: decimal digits, most significant first, no leading zero, a leading minus
  sign for a negative number.
\<close>

definition digit_char :: "nat \<Rightarrow> char" where
  "digit_char d = ''0123456789'' ! d"

fun str_nat :: "nat \<Rightarrow> string" where
  "str_nat n = (if n < 10 then [digit_char n] else str_nat (n div 10) @ [digit_char (n mod 10)])"

text \<open>
  The equation of \<^const>\<open>str_nat\<close> rewrites its own right-hand side; it is used at
  an explicit argument only.
\<close>

declare str_nat.simps [simp del]

definition str_int :: "int \<Rightarrow> string" where
  "str_int i = (if i < 0 then CHR ''-'' # str_nat (nat (- i)) else str_nat (nat i))"

subsection \<open>Objects\<close>

text \<open>
  Python objects that the facade only holds a reference to (the container placed on the
  module, the instrument as the registry sees it) are object identities.
\<close>

type_synonym obj_ref = nat

text \<open>
  The Motor Handle returned by \<^verbatim>\<open>robot.get_mosfet(mosfet)\<close>. Its class is not part of
  the file; what the file uses of it is its identity (the slot it drives), its three
  actions, and the text that \<^verbatim>\<open>str.format\<close> renders for it in a description. That
  text is a field of the handle, supplied by the platform.
\<close>

record motor_handle =
  mosfet_index :: int
  handle_str :: string

text \<open>
  One invocation of a Motor Handle action. The argument of \<^verbatim>\<open>wait\<close> is whatever
  Python value the caller of \<^verbatim>\<open>delay\<close> passed: the file never inspects it, so its type
  is a parameter \<open>'s\<close>.
\<close>

datatype 's motor_call = MotorEngage | MotorDisengage | MotorWait 's

type_synonym 's motor_log = "(motor_handle \<times> 's motor_call) list"

text \<open>The attributes that \<^verbatim>\<open>Magbead.__init__\<close> assigns, in the order of the source.\<close>

type_synonym calibration_entry = string

record magbead =
  axis :: string
  motor :: motor_handle
  name :: string
  persisted_data :: "calibration_entry list"
  calibration_key :: string
  container :: "obj_ref option"
  engaged :: bool

text \<open>
  A Command Descriptor: the keyword arguments \<^verbatim>\<open>do\<close>, \<^verbatim>\<open>setup\<close> and
  \<^verbatim>\<open>description\<close> of \<^verbatim>\<open>create_command\<close>. The two closures take no argument and act
  on what they captured: \<^verbatim>\<open>_setup\<close> writes attributes of \<^verbatim>\<open>self\<close>, so it is a
  transformer of the facade; \<^verbatim>\<open>_do\<close> reads \<^verbatim>\<open>self.motor\<close> when it runs and invokes
  the handle, so it maps the facade and the log of motor invocations to the new log.
\<close>

record 's command =
  do_phase :: "magbead \<Rightarrow> 's motor_log \<Rightarrow> 's motor_log"
  setup_phase :: "magbead \<Rightarrow> magbead"
  description :: string

text \<open>
  The platform reached through \<^verbatim>\<open>Robot.get_instance()\<close>: the instrument registry,
  the mosfet lookup, the queue of pending commands, the Calibration Store, and the log
  of every Motor Handle invocation performed so far.
\<close>

record 's robot_state =
  instruments :: "string \<rightharpoonup> obj_ref"
  mosfets :: "int \<Rightarrow> motor_handle"
  commands :: "'s command list"
  calibration_store :: "string \<rightharpoonup> calibration_entry list"
  motor_log :: "'s motor_log"

text \<open>The program state seen from one facade: the object \<^verbatim>\<open>self\<close> and the platform.\<close>

record 's world =
  self :: magbead
  robot :: "'s robot_state"

section \<open>Collaborators\<close>

text \<open>
  Modelled from the spec: the Motor Handle (\<^verbatim>\<open>engage()\<close>, \<^verbatim>\<open>disengage()\<close>,
  \<^verbatim>\<open>wait(duration)\<close>) is an external actuator whose class is missing from the sources.
  Each action is recorded, with the handle it was invoked on, at the end of the log.
\<close>

definition motor_engage :: "motor_handle \<Rightarrow> 's motor_log \<Rightarrow> 's motor_log" where
  "motor_engage h lg = lg @ [(h, MotorEngage)]"

definition motor_disengage :: "motor_handle \<Rightarrow> 's motor_log \<Rightarrow> 's motor_log" where
  "motor_disengage h lg = lg @ [(h, MotorDisengage)]"

definition motor_wait :: "motor_handle \<Rightarrow> 's \<Rightarrow> 's motor_log \<Rightarrow> 's motor_log" where
  "motor_wait h seconds lg = lg @ [(h, MotorWait seconds)]"

text \<open>
  Modelled from the spec: \<^verbatim>\<open>Robot.add_instrument\<close> is missing from the sources. The
  specification calls it a side-effecting registration under the \<^verbatim>\<open>axis\<close> key.
\<close>

definition add_instrument :: "string \<Rightarrow> obj_ref \<Rightarrow> 's robot_state \<Rightarrow> 's robot_state" where
  "add_instrument ax inst r = r\<lparr>instruments := (instruments r)(ax \<mapsto> inst)\<rparr>"

text \<open>
  Modelled from the spec: \<^verbatim>\<open>Robot.get_mosfet\<close> is missing from the sources. The
  specification calls it a lookup from the slot index to the Motor Handle.
\<close>

definition get_mosfet :: "int \<Rightarrow> 's robot_state \<Rightarrow> motor_handle" where
  "get_mosfet i r = mosfets r i"

text \<open>
  Modelled from the spec: \<^verbatim>\<open>Instrument.init_calibrations\<close> is missing from the
  sources. The specification calls it the persistence bootstrap for a key of the shape
  \<^verbatim>\<open>axis:name\<close>: the store holds an entry sequence under the key afterwards, the one
  it had, or an empty one.
\<close>

definition init_calibrations :: "string \<Rightarrow> 's robot_state \<Rightarrow> 's robot_state" where
  "init_calibrations key r =
     (case calibration_store r key of
        None \<Rightarrow> r\<lparr>calibration_store := (calibration_store r)(key \<mapsto> [])\<rparr>
      | Some _ \<Rightarrow> r)"

text \<open>
  Modelled from the spec: \<^verbatim>\<open>Instrument.load_persisted_data\<close> is missing from the
  sources. The specification says that \<^verbatim>\<open>persistedData\<close> is populated at construction
  with the entries loaded from the Calibration Store under the calibration key.
\<close>

definition load_persisted_data :: "'s robot_state \<Rightarrow> magbead \<Rightarrow> magbead" where
  "load_persisted_data r m =
     (case calibration_store r (calibration_key m) of
        None \<Rightarrow> m
      | Some es \<Rightarrow> m\<lparr>persisted_data := es\<rparr>)"

text \<open>
  Modelled from the spec: \<^verbatim>\<open>Instrument.create_command\<close> is missing from the sources.
  The specification describes it as the command-deferral primitive
  \<^verbatim>\<open>submitOrRun(setup, do, description, deferred)\<close>: \<^verbatim>\<open>setup\<close> always executes
  synchronously, at the moment the action method is invoked, regardless of
  \<^verbatim>\<open>deferred\<close>; then, when \<^verbatim>\<open>deferred\<close> is true the Descriptor is appended to the
  shared queue, and when it is false \<^verbatim>\<open>do\<close> is invoked at once.
\<close>

definition run_setup :: "'s command \<Rightarrow> 's world \<Rightarrow> 's world" where
  "run_setup cmd w = w\<lparr>self := setup_phase cmd (self w)\<rparr>"

definition run_do :: "'s command \<Rightarrow> 's world \<Rightarrow> 's world" where
  "run_do cmd w = w\<lparr>robot := (robot w)\<lparr>motor_log := do_phase cmd (self w) (motor_log (robot w))\<rparr>\<rparr>"

definition append_command :: "'s command \<Rightarrow> 's world \<Rightarrow> 's world" where
  "append_command cmd w = w\<lparr>robot := (robot w)\<lparr>commands := commands (robot w) @ [cmd]\<rparr>\<rparr>"

definition create_command :: "'s command \<Rightarrow> bool \<Rightarrow> 's world \<Rightarrow> 's world" where
  "create_command cmd enqueue w =
     (let w1 = run_setup cmd w
      in if enqueue then append_command cmd w1 else run_do cmd w1)"

text \<open>
  Modelled from the spec: the platform's run loop is missing from the sources. The
  specification says that the queue later replays \<^verbatim>\<open>setup\<close> then \<^verbatim>\<open>do\<close> for every
  Descriptor in submission order, and that a Descriptor is discarded once the queue has
  consumed it.
\<close>

fun run_commands :: "'s command list \<Rightarrow> 's world \<Rightarrow> 's world" where
  "run_commands [] w = w"
| "run_commands (cmd # cmds) w = run_commands cmds (run_do cmd (run_setup cmd w))"

definition run :: "'s world \<Rightarrow> 's world" where
  "run w =
     (let w1 = run_commands (commands (robot w)) w
      in w1\<lparr>robot := (robot w1)\<lparr>commands := []\<rparr>\<rparr>)"

section \<open>The class Magbead\<close>

subsection \<open>Construction\<close>

text \<open>
  \<^verbatim>\<open>Magbead.__init__(self, name=None, mosfet=0, container=None)\<close>, lines 11 to 38.
  \<^verbatim>\<open>this\<close> is the identity of the object under construction, \<^verbatim>\<open>r\<close> the platform
  as \<^verbatim>\<open>Robot.get_instance()\<close> finds it. \<^verbatim>\<open>not name\<close> holds for \<^verbatim>\<open>None\<close> and for
  the empty string; \<^verbatim>\<open>self.__class__.__name__\<close> is \<^verbatim>\<open>Magbead\<close>.
\<close>

definition class_name :: string where
  "class_name = ''Magbead''"

definition Magbead_init ::
  "obj_ref \<Rightarrow> string option \<Rightarrow> int \<Rightarrow> obj_ref option \<Rightarrow> 's robot_state \<Rightarrow> 's world" where
  "Magbead_init this name_arg mosfet container_arg r =
     (let ax = ''M'' @ str_int mosfet;
          r1 = add_instrument ax this r;
          mt = get_mosfet mosfet r1;
          nm = (case name_arg of
                  None \<Rightarrow> class_name
                | Some n \<Rightarrow> if n = [] then class_name else n);
          ck = ax @ '':'' @ nm;
          m = \<lparr>axis = ax, motor = mt, name = nm, persisted_data = [],
               calibration_key = ck, container = container_arg, engaged = False\<rparr>;
          persisted_key = axis m @ '':'' @ name m;
          r2 = init_calibrations persisted_key r1
      in \<lparr>self = load_persisted_data r2 m, robot = r2\<rparr>)"

subsection \<open>engage\<close>

text \<open>Lines 54 to 61: the closures and the description that \<^verbatim>\<open>engage\<close> builds.\<close>

definition engage_setup :: "magbead \<Rightarrow> magbead" where
  "engage_setup m = m\<lparr>engaged := True\<rparr>"

definition engage_do :: "magbead \<Rightarrow> 's motor_log \<Rightarrow> 's motor_log" where
  "engage_do m lg = motor_engage (motor m) lg"

definition engage_command :: "magbead \<Rightarrow> 's command" where
  "engage_command m =
     \<lparr>do_phase = engage_do, setup_phase = engage_setup,
      description = ''Engaging Magbead at mosfet #'' @ handle_str (motor m)\<rparr>"

text \<open>Lines 40 to 68. The method returns \<^verbatim>\<open>self\<close>: the facade, as the call leaves it.\<close>

definition engage :: "bool \<Rightarrow> 's world \<Rightarrow> magbead \<times> 's world" where
  "engage enqueue w =
     (let w' = create_command (engage_command (self w)) enqueue w
      in (self w', w'))"

subsection \<open>disengage\<close>

text \<open>Lines 84 to 91.\<close>

definition disengage_setup :: "magbead \<Rightarrow> magbead" where
  "disengage_setup m = m\<lparr>engaged := False\<rparr>"

definition disengage_do :: "magbead \<Rightarrow> 's motor_log \<Rightarrow> 's motor_log" where
  "disengage_do m lg = motor_disengage (motor m) lg"

definition disengage_command :: "magbead \<Rightarrow> 's command" where
  "disengage_command m =
     \<lparr>do_phase = disengage_do, setup_phase = disengage_setup,
      description = ''Engaging Magbead at mosfet #'' @ handle_str (motor m)\<rparr>"

text \<open>Lines 70 to 98.\<close>

definition disengage :: "bool \<Rightarrow> 's world \<Rightarrow> magbead \<times> 's world" where
  "disengage enqueue w =
     (let w' = create_command (disengage_command (self w)) enqueue w
      in (self w', w'))"

subsection \<open>delay\<close>

text \<open>
  Lines 115 to 121. \<^verbatim>\<open>_setup\<close> is \<^verbatim>\<open>pass\<close>. The description formats
  \<^verbatim>\<open>seconds\<close> with \<^verbatim>\<open>str.format\<close>, whose result depends on the Python type of the
  value; \<^verbatim>\<open>fmt\<close> is that rendering (\<^const>\<open>str_int\<close> for an integer).
\<close>

definition delay_setup :: "magbead \<Rightarrow> magbead" where
  "delay_setup m = m"

definition delay_do :: "'s \<Rightarrow> magbead \<Rightarrow> 's motor_log \<Rightarrow> 's motor_log" where
  "delay_do seconds m lg = motor_wait (motor m) seconds lg"

definition delay_command :: "('s \<Rightarrow> string) \<Rightarrow> 's \<Rightarrow> 's command" where
  "delay_command fmt seconds =
     \<lparr>do_phase = delay_do seconds, setup_phase = delay_setup,
      description = ''Delaying Magbead for '' @ fmt seconds @ '' seconds''\<rparr>"

text \<open>Lines 100 to 128.\<close>

definition delay :: "('s \<Rightarrow> string) \<Rightarrow> 's \<Rightarrow> bool \<Rightarrow> 's world \<Rightarrow> magbead \<times> 's world" where
  "delay fmt seconds enqueue w =
     (let w' = create_command (delay_command fmt seconds) enqueue w
      in (self w', w'))"

subsection \<open>Sequences of calls\<close>

text \<open>
  A caller's sequence of \<^verbatim>\<open>engage(enqueue)\<close> and \<^verbatim>\<open>disengage(enqueue)\<close> calls on one
  facade, each started in the state the previous one left.
\<close>

datatype action = Engage | Disengage

fun call :: "bool \<Rightarrow> action \<Rightarrow> 's world \<Rightarrow> 's world" where
  "call enqueue Engage w = snd (engage enqueue w)"
| "call enqueue Disengage w = snd (disengage enqueue w)"

fun calls :: "bool \<Rightarrow> action list \<Rightarrow> 's world \<Rightarrow> 's world" where
  "calls enqueue [] w = w"
| "calls enqueue (a # as) w = calls enqueue as (call enqueue a w)"

subsection \<open>Sequences of deferred submissions\<close>

text \<open>
  A caller's sequence of deferred calls of any of the three methods on one facade:
  \<^verbatim>\<open>engage(True)\<close>, \<^verbatim>\<open>disengage(True)\<close> or \<^verbatim>\<open>delay(seconds, True)\<close>, each
  started in the state the previous one left.
\<close>

datatype 's request = ReqEngage | ReqDisengage | ReqDelay 's

fun submit :: "('s \<Rightarrow> string) \<Rightarrow> 's request \<Rightarrow> 's world \<Rightarrow> 's world" where
  "submit fmt ReqEngage w = snd (engage True w)"
| "submit fmt ReqDisengage w = snd (disengage True w)"
| "submit fmt (ReqDelay seconds) w = snd (delay fmt seconds True w)"

fun submit_all :: "('s \<Rightarrow> string) \<Rightarrow> 's request list \<Rightarrow> 's world \<Rightarrow> 's world" where
  "submit_all fmt [] w = w"
| "submit_all fmt (rq # rqs) w = submit_all fmt rqs (submit fmt rq w)"

text \<open>
  The Descriptor that each method builds for a facade (lines 54 to 61, 84 to 91 and
  115 to 121), and the Motor Handle action that its \<^verbatim>\<open>_do\<close> closure invokes (lines 58,
  88 and 119).
\<close>

fun command_of :: "('s \<Rightarrow> string) \<Rightarrow> magbead \<Rightarrow> 's request \<Rightarrow> 's command" where
  "command_of fmt m ReqEngage = engage_command m"
| "command_of fmt m ReqDisengage = disengage_command m"
| "command_of fmt m (ReqDelay seconds) = delay_command fmt seconds"

fun motor_call_of :: "'s request \<Rightarrow> 's motor_call" where
  "motor_call_of ReqEngage = MotorEngage"
| "motor_call_of ReqDisengage = MotorDisengage"
| "motor_call_of (ReqDelay seconds) = MotorWait seconds"

subsection \<open>A concrete platform\<close>

text \<open>
  A platform with no instrument registered, an empty queue, an empty Calibration Store,
  no motor invocation so far, and a mosfet lookup that renders a handle by its slot index.
\<close>

definition robot0 :: "int robot_state" where
  "robot0 =
     \<lparr>instruments = Map.empty,
      mosfets = (\<lambda>i. \<lparr>mosfet_index = i, handle_str = str_int i\<rparr>),
      commands = [],
      calibration_store = Map.empty,
      motor_log = []\<rparr>"

section \<open>Facts about the rendering of integers\<close>

lemma digit_cases:
  "d < 10 \<Longrightarrow> d \<in> {0, 1, 2, 3, 4, 5, 6, 7, 8, 9::nat}"
  by auto

lemma of_char_digit: "d < 10 \<Longrightarrow> (of_char (digit_char d) :: nat) = 48 + d"
  by (drule digit_cases) (auto simp: digit_char_def)

lemma digit_char_inj:
  assumes "d < 10" and "e < 10" and "digit_char d = digit_char e"
  shows "d = e"
proof -
  have "(48::nat) + d = of_char (digit_char d)"
    using assms(1) by (simp only: of_char_digit)
  also have "\<dots> = of_char (digit_char e)"
    by (simp only: assms(3))
  also have "\<dots> = 48 + e"
    using assms(2) by (simp only: of_char_digit)
  finally show ?thesis by simp
qed

lemma digit_char_not_colon: "d < 10 \<Longrightarrow> digit_char d \<noteq> CHR '':''"
  using of_char_digit[of d] by auto

lemma digit_char_not_minus: "d < 10 \<Longrightarrow> digit_char d \<noteq> CHR ''-''"
  using of_char_digit[of d] by auto

lemma str_nat_not_Nil: "str_nat n \<noteq> []"
  by (subst str_nat.simps) simp

lemma set_str_nat: "c \<in> set (str_nat n) \<Longrightarrow> \<exists>d<10. c = digit_char d"
proof (induction n rule: str_nat.induct)
  case (1 n)
  show ?case
  proof (cases "n < 10")
    case True
    with "1.prems" have "c = digit_char n" by (simp add: str_nat.simps[of n])
    with True show ?thesis by blast
  next
    case False
    with "1.prems" have "c \<in> set (str_nat (n div 10)) \<or> c = digit_char (n mod 10)"
      by (auto simp: str_nat.simps[of n])
    then show ?thesis
    proof
      assume "c \<in> set (str_nat (n div 10))"
      with False "1.IH" show ?thesis by blast
    next
      assume "c = digit_char (n mod 10)"
      moreover have "n mod 10 < 10" by simp
      ultimately show ?thesis by blast
    qed
  qed
qed

lemma str_nat_inj: "str_nat m = str_nat n \<Longrightarrow> m = n"
proof (induction m arbitrary: n rule: str_nat.induct)
  case (1 m)
  show ?case
  proof (cases "m < 10")
    case m: True
    show ?thesis
    proof (cases "n < 10")
      case True
      with m "1.prems" have "digit_char m = digit_char n"
        by (simp add: str_nat.simps[of m] str_nat.simps[of n])
      with m True show ?thesis by (rule digit_char_inj)
    next
      case False
      with m "1.prems" show ?thesis
        using str_nat_not_Nil[of "n div 10"]
        by (simp add: str_nat.simps[of m] str_nat.simps[of n])
    qed
  next
    case m: False
    show ?thesis
    proof (cases "n < 10")
      case True
      with m "1.prems" show ?thesis
        using str_nat_not_Nil[of "m div 10"]
        by (simp add: str_nat.simps[of m] str_nat.simps[of n])
    next
      case False
      with m "1.prems" have e: "str_nat (m div 10) = str_nat (n div 10)"
        and d: "digit_char (m mod 10) = digit_char (n mod 10)"
        by (simp_all add: str_nat.simps[of m] str_nat.simps[of n])
      from "1.IH"[OF m e] have "m div 10 = n div 10" .
      moreover from d have "m mod 10 = n mod 10"
        by (rule digit_char_inj[rotated 2]) simp_all
      ultimately have "m div 10 * 10 + m mod 10 = n div 10 * 10 + n mod 10"
        by simp
      then show ?thesis by (simp only: div_mult_mod_eq)
    qed
  qed
qed

lemma minus_notin_str_nat: "CHR ''-'' \<notin> set (str_nat n)"
proof
  assume "CHR ''-'' \<in> set (str_nat n)"
  then obtain d where "d < 10" and "CHR ''-'' = digit_char d"
    using set_str_nat by blast
  then show False
    using digit_char_not_minus[of d] by simp
qed

lemma colon_notin_str_nat: "CHR '':'' \<notin> set (str_nat n)"
proof
  assume "CHR '':'' \<in> set (str_nat n)"
  then obtain d where "d < 10" and "CHR '':'' = digit_char d"
    using set_str_nat by blast
  then show False
    using digit_char_not_colon[of d] by simp
qed

lemma colon_notin_str_int: "CHR '':'' \<notin> set (str_int i)"
  by (simp add: str_int_def colon_notin_str_nat)

lemma hd_str_nat: "hd (str_nat n) \<noteq> CHR ''-''"
proof
  assume h: "hd (str_nat n) = CHR ''-''"
  have "str_nat n \<noteq> []" by (rule str_nat_not_Nil)
  then have "hd (str_nat n) \<in> set (str_nat n)" by (rule hd_in_set)
  with h have "CHR ''-'' \<in> set (str_nat n)" by simp
  with minus_notin_str_nat[of n] show False by simp
qed

lemma str_nat_not_minus_Cons: "str_nat n \<noteq> CHR ''-'' # xs"
proof
  assume "str_nat n = CHR ''-'' # xs"
  then have "hd (str_nat n) = CHR ''-''" by simp
  with hd_str_nat[of n] show False by simp
qed

lemma str_int_inj: "str_int i = str_int j \<Longrightarrow> i = j"
proof -
  assume e: "str_int i = str_int j"
  show ?thesis
  proof (cases "i < 0")
    case i: True
    show ?thesis
    proof (cases "j < 0")
      case True
      with i e have "str_nat (nat (- i)) = str_nat (nat (- j))" by (simp add: str_int_def)
      then have "nat (- i) = nat (- j)" by (rule str_nat_inj)
      with i True show ?thesis by simp
    next
      case False
      with i e have "str_nat (nat j) = CHR ''-'' # str_nat (nat (- i))" by (simp add: str_int_def)
      with str_nat_not_minus_Cons show ?thesis by blast
    qed
  next
    case i: False
    show ?thesis
    proof (cases "j < 0")
      case True
      with i e have "str_nat (nat i) = CHR ''-'' # str_nat (nat (- j))" by (simp add: str_int_def)
      with str_nat_not_minus_Cons show ?thesis by blast
    next
      case False
      with i e have "str_nat (nat i) = str_nat (nat j)" by (simp add: str_int_def)
      then have "nat i = nat j" by (rule str_nat_inj)
      with i False show ?thesis by simp
    qed
  qed
qed

lemma takeWhile_separator:
  "c \<notin> set xs \<Longrightarrow> takeWhile (\<lambda>x. x \<noteq> c) (xs @ c # ys) = xs"
  by (induction xs) auto

lemma split_at_separator:
  assumes "xs @ c # ys = xs' @ c # ys'" and "c \<notin> set xs" and "c \<notin> set xs'"
  shows "xs = xs' \<and> ys = ys'"
proof -
  have "takeWhile (\<lambda>x. x \<noteq> c) (xs @ c # ys) = xs"
    using assms(2) by (rule takeWhile_separator)
  moreover have "takeWhile (\<lambda>x. x \<noteq> c) (xs' @ c # ys') = xs'"
    using assms(3) by (rule takeWhile_separator)
  ultimately have "xs = xs'" using assms(1) by simp
  with assms(1) show ?thesis by simp
qed

section \<open>Facts about construction\<close>

lemma robot0_fields:
  "commands robot0 = []" "motor_log robot0 = []"
  "mosfets robot0 i = \<lparr>mosfet_index = i, handle_str = str_int i\<rparr>"
  by (simp_all add: robot0_def)

lemma Magbead_init_robot:
  "commands (robot (Magbead_init this nm i c r)) = commands r"
  "motor_log (robot (Magbead_init this nm i c r)) = motor_log r"
  by (simp_all add: Magbead_init_def Let_def init_calibrations_def add_instrument_def
        split: option.split)

lemma Magbead_init_self:
  "axis (self (Magbead_init this nm i c r)) = ''M'' @ str_int i"
  "motor (self (Magbead_init this nm i c r)) = mosfets r i"
  "name (self (Magbead_init this nm i c r)) =
     (case nm of None \<Rightarrow> ''Magbead'' | Some n \<Rightarrow> if n = [] then ''Magbead'' else n)"
  "calibration_key (self (Magbead_init this nm i c r)) =
     ''M'' @ str_int i @ '':'' @
     (case nm of None \<Rightarrow> ''Magbead'' | Some n \<Rightarrow> if n = [] then ''Magbead'' else n)"
  "container (self (Magbead_init this nm i c r)) = c"
  "engaged (self (Magbead_init this nm i c r)) = False"
  by (simp_all add: Magbead_init_def Let_def load_persisted_data_def get_mosfet_def
        add_instrument_def init_calibrations_def class_name_def split: option.split)

lemma calibration_key_shape:
  "calibration_key (self (Magbead_init this nm i c r)) =
     ''M'' @ str_int i @ CHR '':'' # name (self (Magbead_init this nm i c r))"
  by (simp add: Magbead_init_self)

lemma key_strings_eq_iff:
  "(str_int i1 @ CHR '':'' # a = str_int i2 @ CHR '':'' # b) = (i1 = i2 \<and> a = b)"
proof
  assume "str_int i1 @ CHR '':'' # a = str_int i2 @ CHR '':'' # b"
  then have "str_int i1 = str_int i2 \<and> a = b"
    by (rule split_at_separator) (rule colon_notin_str_int)+
  then show "i1 = i2 \<and> a = b"
    using str_int_inj by blast
next
  assume "i1 = i2 \<and> a = b"
  then show "str_int i1 @ CHR '':'' # a = str_int i2 @ CHR '':'' # b"
    by simp
qed

lemma calibration_key_eq_iff:
  "(calibration_key (self (Magbead_init t1 n1 i1 c1 r1)) =
    calibration_key (self (Magbead_init t2 n2 i2 c2 r2))) =
   (i1 = i2 \<and> name (self (Magbead_init t1 n1 i1 c1 r1)) = name (self (Magbead_init t2 n2 i2 c2 r2)))"
  by (simp only: calibration_key_shape append_Cons append_Nil list.inject simp_thms
        key_strings_eq_iff)

section \<open>Facts about the command primitive\<close>

lemma create_command_enqueue:
  "create_command cmd True w =
     w\<lparr>self := setup_phase cmd (self w),
       robot := (robot w)\<lparr>commands := commands (robot w) @ [cmd]\<rparr>\<rparr>"
  by (simp add: create_command_def run_setup_def append_command_def)

lemma create_command_immediate:
  "create_command cmd False w =
     w\<lparr>self := setup_phase cmd (self w),
       robot := (robot w)\<lparr>motor_log :=
         do_phase cmd (setup_phase cmd (self w)) (motor_log (robot w))\<rparr>\<rparr>"
  by (simp add: create_command_def run_setup_def run_do_def)

lemma run_commands_append:
  "run_commands (cs @ ds) w = run_commands ds (run_commands cs w)"
  by (induction cs arbitrary: w) simp_all

lemma run_step:
  "run_do cmd (run_setup cmd w) =
     w\<lparr>self := setup_phase cmd (self w),
       robot := (robot w)\<lparr>motor_log :=
         do_phase cmd (setup_phase cmd (self w)) (motor_log (robot w))\<rparr>\<rparr>"
  by (simp add: run_setup_def run_do_def)

lemma motor_log_run:
  "motor_log (robot (run w)) = motor_log (robot (run_commands (commands (robot w)) w))"
  by (simp add: run_def Let_def)

lemma calls_append:
  "calls enqueue (as @ bs) w = calls enqueue bs (calls enqueue as w)"
  by (induction as arbitrary: w) simp_all

lemma engaged_call_immediate:
  "engaged (self (call False a w)) = (a = Engage)"
  by (cases a)
     (simp_all add: engage_def disengage_def create_command_immediate engage_command_def
        disengage_command_def engage_setup_def disengage_setup_def Let_def)

lemma run_snoc:
  "run_commands (cs @ [c]) w = run_do c (run_setup c (run_commands cs w))"
  by (simp add: run_commands_append)

lemma enqueue_state_engage:
  "snd (engage True w) =
     w\<lparr>self := (self w)\<lparr>engaged := True\<rparr>,
       robot := (robot w)\<lparr>commands := commands (robot w) @ [engage_command (self w)]\<rparr>\<rparr>"
  by (simp add: engage_def create_command_enqueue engage_command_def engage_setup_def Let_def)

lemma enqueue_state_disengage:
  "snd (disengage True w) =
     w\<lparr>self := (self w)\<lparr>engaged := False\<rparr>,
       robot := (robot w)\<lparr>commands := commands (robot w) @ [disengage_command (self w)]\<rparr>\<rparr>"
  by (simp add: disengage_def create_command_enqueue disengage_command_def disengage_setup_def
        Let_def)

lemma enqueue_state_delay:
  "snd (delay fmt s True w) =
     w\<lparr>robot := (robot w)\<lparr>commands := commands (robot w) @ [delay_command fmt s]\<rparr>\<rparr>"
  by (simp add: delay_def create_command_enqueue delay_command_def delay_setup_def Let_def)

lemma immediate_state_engage:
  "snd (engage False w) =
     w\<lparr>self := (self w)\<lparr>engaged := True\<rparr>,
       robot := (robot w)\<lparr>motor_log := motor_log (robot w) @ [(motor (self w), MotorEngage)]\<rparr>\<rparr>"
  by (simp add: engage_def create_command_immediate engage_command_def engage_setup_def
        engage_do_def motor_engage_def Let_def)

lemma immediate_state_disengage:
  "snd (disengage False w) =
     w\<lparr>self := (self w)\<lparr>engaged := False\<rparr>,
       robot := (robot w)\<lparr>motor_log := motor_log (robot w) @ [(motor (self w), MotorDisengage)]\<rparr>\<rparr>"
  by (simp add: disengage_def create_command_immediate disengage_command_def
        disengage_setup_def disengage_do_def motor_disengage_def Let_def)

lemma immediate_state_delay:
  "snd (delay fmt s False w) =
     w\<lparr>robot := (robot w)\<lparr>motor_log := motor_log (robot w) @ [(motor (self w), MotorWait s)]\<rparr>\<rparr>"
  by (simp add: delay_def create_command_immediate delay_command_def delay_setup_def
        delay_do_def motor_wait_def Let_def)

lemma run_engage_command:
  "motor_log (robot (run_do (engage_command m) (run_setup (engage_command m) v))) =
     motor_log (robot v) @ [(motor (self v), MotorEngage)]"
  by (simp add: run_step engage_command_def engage_setup_def engage_do_def motor_engage_def)

section \<open>Deferred and immediate execution\<close>

text \<open>
  Claim C1. For every state, \<^verbatim>\<open>engage(enqueue=True)\<close> sets \<^verbatim>\<open>engaged\<close> to true at
  call time, appends exactly one Command Descriptor to the queue and invokes no Motor
  Handle action: the log of invocations is the one before the call. The facade that the
  call returns reads \<^verbatim>\<open>engaged\<close> as true. The engage action is invoked only when the
  queue is drained, after the actions of the commands queued before it.
\<close>

theorem engage_deferred:
  "(let w' = snd (engage True w);
        v = run_commands (commands (robot w)) w'
    in w' = w\<lparr>self := (self w)\<lparr>engaged := True\<rparr>,
               robot := (robot w)\<lparr>commands := commands (robot w) @ [engage_command (self w)]\<rparr>\<rparr>
     \<and> engaged (self w')
     \<and> engaged (fst (engage True w))
     \<and> length (commands (robot w')) = Suc (length (commands (robot w)))
     \<and> motor_log (robot w') = motor_log (robot w)
     \<and> motor_log (robot (run w')) = motor_log (robot v) @ [(motor (self v), MotorEngage)])"
proof -
  let ?w' = "snd (engage True w)"
  let ?v = "run_commands (commands (robot w)) ?w'"
  have st: "?w' = w\<lparr>self := (self w)\<lparr>engaged := True\<rparr>,
               robot := (robot w)\<lparr>commands := commands (robot w) @ [engage_command (self w)]\<rparr>\<rparr>"
    by (rule enqueue_state_engage)
  have q: "commands (robot ?w') = commands (robot w) @ [engage_command (self w)]"
    by (simp add: st)
  have ret: "fst (engage True w) = self ?w'"
    by (simp add: engage_def Let_def)
  have "motor_log (robot (run ?w')) =
          motor_log (robot (run_commands (commands (robot w) @ [engage_command (self w)]) ?w'))"
    by (simp only: motor_log_run q)
  also have "\<dots> = motor_log (robot ?v) @ [(motor (self ?v), MotorEngage)]"
    by (simp only: run_snoc run_engage_command)
  finally have dr: "motor_log (robot (run ?w')) = motor_log (robot ?v) @ [(motor (self ?v), MotorEngage)]" .
  have e: "engaged (self ?w')" by (simp add: st)
  have l: "length (commands (robot ?w')) = Suc (length (commands (robot w)))" by (simp add: q)
  have m: "motor_log (robot ?w') = motor_log (robot w)" by (simp add: st)
  from st e l m dr ret show ?thesis by (simp only: Let_def)
qed

text \<open>
  Claim C2. In a sequence of \<^verbatim>\<open>engage(False)\<close> and \<^verbatim>\<open>disengage(False)\<close> calls
  on one facade, started in any state, \<^verbatim>\<open>engaged\<close> after a call is true exactly when
  that call was \<^verbatim>\<open>engage\<close>, whatever the calls before it: this holds after the last
  call of every sequence, and so after the call at every position \<open>k\<close> of a sequence.
\<close>

theorem immediate_engaged_last_call:
  "engaged (self (calls False (as @ [a]) w)) = (a = Engage)
   \<and> (\<forall>k<length as. engaged (self (calls False (take (Suc k) as) w)) = (as ! k = Engage))"
proof -
  have last_call: "engaged (self (calls False (bs @ [b]) w)) = (b = Engage)" for bs b
    by (simp add: calls_append engaged_call_immediate)
  have "engaged (self (calls False (take (Suc k) as) w)) = (as ! k = Engage)"
    if "k < length as" for k
  proof -
    from that have "take (Suc k) as = take k as @ [as ! k]"
      by (rule take_Suc_conv_app_nth)
    then show ?thesis by (simp only: last_call)
  qed
  with last_call show ?thesis by blast
qed

theorem immediate_engaged_last_call_witness:
  "(1::nat) < length [Disengage, Engage]
   \<and> engaged (self (calls False [Disengage, Engage] (Magbead_init 0 None 0 None robot0)))
   \<and> \<not> engaged (self (calls False [Engage, Engage, Disengage] (Magbead_init 0 None 0 None robot0)))"
proof -
  let ?w = "Magbead_init 0 None 0 None robot0"
  have k: "(1::nat) < length [Disengage, Engage]" by simp
  have a: "\<forall>k<length [Disengage, Engage].
      engaged (self (calls False (take (Suc k) [Disengage, Engage]) ?w)) =
        ([Disengage, Engage] ! k = Engage)"
    using immediate_engaged_last_call [of "[Disengage, Engage]" Engage ?w] by blast
  from a k have "engaged (self (calls False (take (Suc 1) [Disengage, Engage]) ?w)) =
          ([Disengage, Engage] ! 1 = Engage)"
    by blast
  then have b: "engaged (self (calls False [Disengage, Engage] ?w))"
    by simp
  have "engaged (self (calls False ([Engage, Engage] @ [Disengage]) ?w)) =
          (Disengage = Engage)"
    using immediate_engaged_last_call [of "[Engage, Engage]" Disengage ?w] by blast
  then have c: "\<not> engaged (self (calls False [Engage, Engage, Disengage] ?w))"
    by simp
  from k b c show ?thesis by blast
qed

lemma submit_state:
  "submit fmt rq w =
     w\<lparr>self := setup_phase (command_of fmt (self w) rq) (self w),
       robot := (robot w)\<lparr>commands := commands (robot w) @ [command_of fmt (self w) rq]\<rparr>\<rparr>"
  by (cases rq)
     (simp_all add: enqueue_state_engage enqueue_state_disengage enqueue_state_delay
        engage_command_def disengage_command_def delay_command_def
        engage_setup_def disengage_setup_def delay_setup_def)

lemma motor_setup_phase:
  "motor (setup_phase (command_of fmt m rq) m') = motor m'"
  by (cases rq)
     (simp_all add: engage_command_def disengage_command_def delay_command_def
        engage_setup_def disengage_setup_def delay_setup_def)

lemma command_of_motor:
  "motor m = motor m' \<Longrightarrow> command_of fmt m rq = command_of fmt m' rq"
  by (cases rq) (simp_all add: engage_command_def disengage_command_def)

lemma submit_all_state:
  "commands (robot (submit_all fmt rqs w)) =
     commands (robot w) @ map (command_of fmt (self w)) rqs
   \<and> motor_log (robot (submit_all fmt rqs w)) = motor_log (robot w)
   \<and> motor (self (submit_all fmt rqs w)) = motor (self w)"
proof (induction rqs arbitrary: w)
  case Nil
  show ?case by simp
next
  case (Cons rq rqs)
  let ?w1 = "submit fmt rq w"
  have m: "motor (self ?w1) = motor (self w)"
    by (simp add: submit_state motor_setup_phase)
  have c: "commands (robot ?w1) = commands (robot w) @ [command_of fmt (self w) rq]"
    by (simp add: submit_state)
  have l: "motor_log (robot ?w1) = motor_log (robot w)"
    by (simp add: submit_state)
  have same: "map (command_of fmt (self ?w1)) rqs = map (command_of fmt (self w)) rqs"
    by (simp add: command_of_motor [OF m])
  from Cons.IH [of ?w1] m c l same show ?case by simp
qed

lemma run_command_of:
  "run_do (command_of fmt m rq) (run_setup (command_of fmt m rq) v) =
     v\<lparr>self := setup_phase (command_of fmt m rq) (self v),
       robot := (robot v)\<lparr>motor_log :=
         motor_log (robot v) @ [(motor (self v), motor_call_of rq)]\<rparr>\<rparr>"
  by (cases rq)
     (simp_all add: run_step engage_command_def disengage_command_def delay_command_def
        engage_setup_def disengage_setup_def delay_setup_def
        engage_do_def disengage_do_def delay_do_def
        motor_engage_def motor_disengage_def motor_wait_def)

lemma run_commands_of:
  "motor_log (robot (run_commands (map (command_of fmt m) rqs) v)) =
     motor_log (robot v) @ map (\<lambda>rq. (motor (self v), motor_call_of rq)) rqs
   \<and> motor (self (run_commands (map (command_of fmt m) rqs) v)) = motor (self v)"
proof (induction rqs arbitrary: v)
  case Nil
  show ?case by simp
next
  case (Cons rq rqs)
  let ?v1 = "run_do (command_of fmt m rq) (run_setup (command_of fmt m rq) v)"
  have m1: "motor (self ?v1) = motor (self v)"
    by (simp add: run_command_of motor_setup_phase)
  have l1: "motor_log (robot ?v1) = motor_log (robot v) @ [(motor (self v), motor_call_of rq)]"
    by (simp add: run_command_of)
  from Cons.IH [of ?v1] m1 l1 show ?case by simp
qed

text \<open>
  Claim C3. Queued Descriptors run in strict submission order. For every sequence of
  deferred \<^verbatim>\<open>engage\<close>, \<^verbatim>\<open>disengage\<close> and \<^verbatim>\<open>delay\<close> calls on a facade, started
  in any state: the queue holds their Descriptors, in the order of the calls, after the
  ones it held; no motor action has been invoked; and draining the queue invokes, after
  the actions of the older commands, exactly the actions of the calls, in the order of the
  calls, on the facade's Motor Handle. With an empty queue at the start they are all that
  the drain invokes. In particular \<^verbatim>\<open>engage(True)\<close>, \<^verbatim>\<open>delay(s, True)\<close>,
  \<^verbatim>\<open>disengage(True)\<close> in that order give engage, wait(s), disengage in that order.
\<close>

theorem queued_commands_run_in_submission_order:
  "(let w' = submit_all fmt rqs w;
        v = run_commands (commands (robot w)) w'
    in commands (robot w') = commands (robot w) @ map (command_of fmt (self w)) rqs
     \<and> motor_log (robot w') = motor_log (robot w)
     \<and> motor_log (robot (run w')) =
         motor_log (robot v) @ map (\<lambda>rq. (motor (self v), motor_call_of rq)) rqs
     \<and> (commands (robot w) = [] \<longrightarrow>
          motor_log (robot (run w')) =
            motor_log (robot w) @ map (\<lambda>rq. (motor (self w), motor_call_of rq)) rqs))
   \<and> (let w1 = snd (engage True w);
        w2 = snd (delay fmt s True w1);
        w3 = snd (disengage True w2);
        v = run_commands (commands (robot w)) w3;
        mt = motor (self v)
    in commands (robot w3) =
         commands (robot w) @ [engage_command (self w), delay_command fmt s, disengage_command (self w)]
     \<and> motor_log (robot w3) = motor_log (robot w)
     \<and> motor_log (robot (run w3)) =
         motor_log (robot v) @ [(mt, MotorEngage), (mt, MotorWait s), (mt, MotorDisengage)]
     \<and> (commands (robot w) = [] \<longrightarrow>
          motor_log (robot (run w3)) =
            motor_log (robot w) @
              [(motor (self w), MotorEngage), (motor (self w), MotorWait s),
               (motor (self w), MotorDisengage)]))"
proof -
  have general:
    "commands (robot (submit_all fmt rs u)) = commands (robot u) @ map (command_of fmt (self u)) rs
     \<and> motor_log (robot (submit_all fmt rs u)) = motor_log (robot u)
     \<and> motor_log (robot (run (submit_all fmt rs u))) =
         motor_log (robot (run_commands (commands (robot u)) (submit_all fmt rs u))) @
         map (\<lambda>rq. (motor (self (run_commands (commands (robot u)) (submit_all fmt rs u))),
                     motor_call_of rq)) rs
     \<and> (commands (robot u) = [] \<longrightarrow>
          motor_log (robot (run (submit_all fmt rs u))) =
            motor_log (robot u) @ map (\<lambda>rq. (motor (self u), motor_call_of rq)) rs)"
    for rs and u :: "'a world"
  proof -
    let ?w' = "submit_all fmt rs u"
    let ?v = "run_commands (commands (robot u)) ?w'"
    have q: "commands (robot ?w') = commands (robot u) @ map (command_of fmt (self u)) rs"
      and lg: "motor_log (robot ?w') = motor_log (robot u)"
      and mt: "motor (self ?w') = motor (self u)"
      using submit_all_state [of fmt rs u] by blast+
    have "motor_log (robot (run ?w')) =
        motor_log (robot (run_commands (commands (robot u) @ map (command_of fmt (self u)) rs) ?w'))"
      by (simp only: motor_log_run q)
    also have "\<dots> = motor_log (robot ?v) @ map (\<lambda>rq. (motor (self ?v), motor_call_of rq)) rs"
      using run_commands_of [of fmt "self u" rs ?v] by (simp add: run_commands_append)
    finally have dr: "motor_log (robot (run ?w')) =
        motor_log (robot ?v) @ map (\<lambda>rq. (motor (self ?v), motor_call_of rq)) rs" .
    have em: "motor_log (robot (run ?w')) =
        motor_log (robot u) @ map (\<lambda>rq. (motor (self u), motor_call_of rq)) rs"
      if "commands (robot u) = []"
    proof -
      from that have "?v = ?w'" by simp
      with dr lg mt show ?thesis by simp
    qed
    from q lg dr em show ?thesis by blast
  qed
  have three: "snd (disengage True (snd (delay fmt s True (snd (engage True w))))) =
      submit_all fmt [ReqEngage, ReqDelay s, ReqDisengage] w"
    by simp
  have m3: "motor (self (snd (disengage True (snd (delay fmt s True (snd (engage True w)))))))
      = motor (self w)"
    by (simp add: enqueue_state_engage enqueue_state_delay enqueue_state_disengage)
  have special: "(let w1 = snd (engage True w);
        w2 = snd (delay fmt s True w1);
        w3 = snd (disengage True w2);
        v = run_commands (commands (robot w)) w3;
        mt = motor (self v)
    in commands (robot w3) =
         commands (robot w) @ [engage_command (self w), delay_command fmt s, disengage_command (self w)]
     \<and> motor_log (robot w3) = motor_log (robot w)
     \<and> motor_log (robot (run w3)) =
         motor_log (robot v) @ [(mt, MotorEngage), (mt, MotorWait s), (mt, MotorDisengage)]
     \<and> (commands (robot w) = [] \<longrightarrow>
          motor_log (robot (run w3)) =
            motor_log (robot w) @
              [(motor (self w), MotorEngage), (motor (self w), MotorWait s),
               (motor (self w), MotorDisengage)]))"
    using general [of "[ReqEngage, ReqDelay s, ReqDisengage]" w, folded three] m3
    unfolding Let_def by simp
  from general [of rqs w] special show ?thesis
    unfolding Let_def by blast
qed

theorem queued_commands_run_in_submission_order_witness:
  "commands (robot (Magbead_init 0 None 0 None robot0)) = []
   \<and> motor_log (robot (run (snd (disengage True (snd (delay str_int 5 True
        (snd (engage True (Magbead_init 0 None 0 None robot0)))))))))
     = [(\<lparr>mosfet_index = 0, handle_str = ''0''\<rparr>, MotorEngage),
        (\<lparr>mosfet_index = 0, handle_str = ''0''\<rparr>, MotorWait 5),
        (\<lparr>mosfet_index = 0, handle_str = ''0''\<rparr>, MotorDisengage)]
   \<and> motor_log (robot (run (submit_all str_int [ReqDelay 1, ReqDelay 2, ReqDisengage, ReqEngage]
        (Magbead_init 0 None 0 None robot0))))
     = [(\<lparr>mosfet_index = 0, handle_str = ''0''\<rparr>, MotorWait 1),
        (\<lparr>mosfet_index = 0, handle_str = ''0''\<rparr>, MotorWait 2),
        (\<lparr>mosfet_index = 0, handle_str = ''0''\<rparr>, MotorDisengage),
        (\<lparr>mosfet_index = 0, handle_str = ''0''\<rparr>, MotorEngage)]"
proof -
  let ?w = "Magbead_init 0 None 0 None robot0"
  let ?rqs = "[ReqDelay 1, ReqDelay 2, ReqDisengage, ReqEngage] :: int request list"
  have e: "commands (robot ?w) = []"
    by (simp add: Magbead_init_robot robot0_fields)
  have s0: "str_int 0 = ''0''"
    by (simp add: str_int_def str_nat.simps digit_char_def)
  note th = queued_commands_run_in_submission_order [of str_int ?rqs ?w 5, unfolded Let_def]
  have a: "motor_log (robot (run (snd (disengage True (snd (delay str_int 5 True
        (snd (engage True ?w))))))))
     = motor_log (robot ?w) @
         [(motor (self ?w), MotorEngage), (motor (self ?w), MotorWait 5),
          (motor (self ?w), MotorDisengage)]"
    using th e by blast
  have b: "motor_log (robot (run (submit_all str_int ?rqs ?w))) =
      motor_log (robot ?w) @ map (\<lambda>rq. (motor (self ?w), motor_call_of rq)) ?rqs"
    using th e by blast
  from e a b show ?thesis
    by (simp add: Magbead_init_robot Magbead_init_self robot0_fields s0)
qed

text \<open>
  Claim C4. \<^verbatim>\<open>engage(enqueue=False)\<close> runs both phases at once, the do phase on the
  state that the setup phase left: afterwards \<^verbatim>\<open>engaged\<close> is true, the log of motor
  invocations has grown by exactly one engage on the facade's Motor Handle, the queue is
  the one before the call, and the call returns the facade.
\<close>

theorem engage_immediate:
  "(let ret = engage False w; w' = snd ret
    in w' = w\<lparr>self := (self w)\<lparr>engaged := True\<rparr>,
               robot := (robot w)\<lparr>motor_log :=
                 motor_log (robot w) @ [(motor (self w), MotorEngage)]\<rparr>\<rparr>
     \<and> w' = run_do (engage_command (self w)) (run_setup (engage_command (self w)) w)
     \<and> engaged (self w')
     \<and> motor_log (robot w') = motor_log (robot w) @ [(motor (self w), MotorEngage)]
     \<and> commands (robot w') = commands (robot w)
     \<and> fst ret = self w')"
proof -
  let ?w' = "snd (engage False w)"
  have st: "?w' = w\<lparr>self := (self w)\<lparr>engaged := True\<rparr>,
               robot := (robot w)\<lparr>motor_log :=
                 motor_log (robot w) @ [(motor (self w), MotorEngage)]\<rparr>\<rparr>"
    by (rule immediate_state_engage)
  have ph: "?w' = run_do (engage_command (self w)) (run_setup (engage_command (self w)) w)"
    by (simp add: engage_def create_command_def Let_def)
  have e: "engaged (self ?w')" by (simp add: st)
  have l: "motor_log (robot ?w') = motor_log (robot w) @ [(motor (self w), MotorEngage)]"
    by (simp add: st)
  have q: "commands (robot ?w') = commands (robot w)" by (simp add: st)
  have r: "fst (engage False w) = self ?w'" by (simp add: engage_def Let_def)
  from st ph e l q r show ?thesis unfolding Let_def by blast
qed

text \<open>
  Claim C5. The Descriptor of \<^verbatim>\<open>disengage\<close> has a setup phase that sets
  \<^verbatim>\<open>engaged\<close> to false and a do phase that invokes the Motor Handle's disengage
  action; \<^verbatim>\<open>disengage\<close> hands it to \<^verbatim>\<open>create_command\<close> with the caller's flag, as
  \<^verbatim>\<open>engage\<close> does with its own, so that the deferred call appends one Descriptor and
  invokes nothing and the immediate call invokes disengage once and queues nothing; for
  either flag \<^verbatim>\<open>engaged\<close> is false afterwards and the call returns the facade.
\<close>

theorem disengage_symmetric:
  "setup_phase (disengage_command m :: 's command) m' = m'\<lparr>engaged := False\<rparr>
   \<and> do_phase (disengage_command m :: 's command) m' lg = lg @ [(motor m', MotorDisengage)]
   \<and> snd (disengage enqueue (w :: 's world)) = create_command (disengage_command (self w)) enqueue w
   \<and> snd (engage enqueue w) = create_command (engage_command (self w)) enqueue w
   \<and> snd (disengage True w) =
        w\<lparr>self := (self w)\<lparr>engaged := False\<rparr>,
          robot := (robot w)\<lparr>commands := commands (robot w) @ [disengage_command (self w)]\<rparr>\<rparr>
   \<and> snd (disengage False w) =
        w\<lparr>self := (self w)\<lparr>engaged := False\<rparr>,
          robot := (robot w)\<lparr>motor_log :=
            motor_log (robot w) @ [(motor (self w), MotorDisengage)]\<rparr>\<rparr>
   \<and> \<not> engaged (self (snd (disengage enqueue w)))
   \<and> fst (disengage enqueue w) = self (snd (disengage enqueue w))"
proof -
  have su: "setup_phase (disengage_command m :: 's command) m' = m'\<lparr>engaged := False\<rparr>"
    by (simp add: disengage_command_def disengage_setup_def)
  have d: "do_phase (disengage_command m :: 's command) m' lg = lg @ [(motor m', MotorDisengage)]"
    by (simp add: disengage_command_def disengage_do_def motor_disengage_def)
  have r1: "snd (disengage enqueue w) = create_command (disengage_command (self w)) enqueue w"
    by (simp add: disengage_def Let_def)
  have r2: "snd (engage enqueue w) = create_command (engage_command (self w)) enqueue w"
    by (simp add: engage_def Let_def)
  have ne: "\<not> engaged (self (snd (disengage enqueue w)))"
    by (cases enqueue) (simp_all add: enqueue_state_disengage immediate_state_disengage)
  have rt: "fst (disengage enqueue w) = self (snd (disengage enqueue w))"
    by (simp add: disengage_def Let_def)
  from su d r1 r2 enqueue_state_disengage [of w] immediate_state_disengage [of w] ne rt
  show ?thesis by blast
qed

section \<open>delay\<close>

text \<open>
  Claim C8. For every value of \<^verbatim>\<open>seconds\<close>, of whatever type, and either flag: the
  setup phase of \<^verbatim>\<open>delay\<close> is the identity on the facade, so the call leaves
  \<^verbatim>\<open>engaged\<close>, \<^verbatim>\<open>axis\<close>, \<^verbatim>\<open>name\<close>, \<^verbatim>\<open>calibration_key\<close>, \<^verbatim>\<open>container\<close>
  and \<^verbatim>\<open>persisted_data\<close> as they were; the do phase invokes the Motor Handle's wait
  action with the very value it was given. No branch of \<^verbatim>\<open>delay\<close> inspects the value.
\<close>

theorem delay_frame:
  "setup_phase (delay_command fmt s) m = m
   \<and> do_phase (delay_command fmt s) m lg = lg @ [(motor m, MotorWait s)]
   \<and> self (snd (delay fmt s enqueue w)) = self w
   \<and> engaged (self (snd (delay fmt s enqueue w))) = engaged (self w)
   \<and> axis (self (snd (delay fmt s enqueue w))) = axis (self w)
   \<and> name (self (snd (delay fmt s enqueue w))) = name (self w)
   \<and> calibration_key (self (snd (delay fmt s enqueue w))) = calibration_key (self w)
   \<and> container (self (snd (delay fmt s enqueue w))) = container (self w)
   \<and> persisted_data (self (snd (delay fmt s enqueue w))) = persisted_data (self w)
   \<and> motor_log (robot (snd (delay fmt s False w))) =
        motor_log (robot w) @ [(motor (self w), MotorWait s)]
   \<and> commands (robot (snd (delay fmt s True w))) = commands (robot w) @ [delay_command fmt s]"
proof -
  have su: "setup_phase (delay_command fmt s) m = m"
    by (simp add: delay_command_def delay_setup_def)
  have d: "do_phase (delay_command fmt s) m lg = lg @ [(motor m, MotorWait s)]"
    by (simp add: delay_command_def delay_do_def motor_wait_def)
  have fr: "self (snd (delay fmt s enqueue w)) = self w"
    by (cases enqueue) (simp_all add: enqueue_state_delay immediate_state_delay)
  have im: "motor_log (robot (snd (delay fmt s False w))) =
        motor_log (robot w) @ [(motor (self w), MotorWait s)]"
    by (simp add: immediate_state_delay)
  have en: "commands (robot (snd (delay fmt s True w))) = commands (robot w) @ [delay_command fmt s]"
    by (simp add: enqueue_state_delay)
  from su d fr im en show ?thesis by simp
qed

text \<open>A negative duration reaches the Motor Handle as it is.\<close>

theorem delay_frame_witness:
  "motor_log (robot (snd (delay str_int (- 3) False (Magbead_init 0 None 0 None robot0)))) =
     [(\<lparr>mosfet_index = 0, handle_str = ''0''\<rparr>, MotorWait (- 3))]
   \<and> self (snd (delay str_int (- 3) True (Magbead_init 0 None 0 None robot0))) =
     self (Magbead_init 0 None 0 None robot0)"
proof -
  let ?w = "Magbead_init 0 None 0 None robot0"
  have s0: "str_int 0 = ''0''"
    by (simp add: str_int_def str_nat.simps digit_char_def)
  have "motor_log (robot (snd (delay str_int (- 3) False ?w))) =
      motor_log (robot ?w) @ [(motor (self ?w), MotorWait (- 3))]"
    using delay_frame [of str_int "- 3" _ _ False ?w] by blast
  moreover have "self (snd (delay str_int (- 3) True ?w)) = self ?w"
    using delay_frame [of str_int "- 3" _ _ True ?w] by blast
  ultimately show ?thesis
    by (simp add: Magbead_init_robot Magbead_init_self robot0_fields s0)
qed

section \<open>Descriptions\<close>

text \<open>
  Claim C9. The Descriptor that \<^verbatim>\<open>disengage\<close> produces, the one that a deferred call
  appends to the queue and that either call hands to \<^verbatim>\<open>create_command\<close>, has the
  description \<^verbatim>\<open>Engaging Magbead at mosfet #\<close> followed by the rendering of the motor
  reference: it is the description of the Descriptor that \<^verbatim>\<open>engage\<close> produces in the
  same state, it begins with \<^verbatim>\<open>Engaging\<close> and it does not begin with
  \<^verbatim>\<open>Disengaging\<close>.
\<close>

theorem disengage_description_says_engaging:
  "(let w' = snd (disengage True (w :: 's world));
        d = last (commands (robot w'))
    in commands (robot w') = commands (robot w) @ [d]
     \<and> description d = ''Engaging Magbead at mosfet #'' @ handle_str (motor (self w))
     \<and> description d = description (last (commands (robot (snd (engage True w)))))
     \<and> prefix ''Engaging'' (description d)
     \<and> \<not> prefix ''Disengaging'' (description d))
   \<and> snd (disengage enqueue w) = create_command (disengage_command (self w)) enqueue w
   \<and> description (disengage_command m :: 's command) =
        ''Engaging Magbead at mosfet #'' @ handle_str (motor m)
   \<and> description (disengage_command m :: 's command) = description (engage_command m :: 's command)
   \<and> prefix ''Engaging'' (description (disengage_command m :: 's command))
   \<and> \<not> prefix ''Disengaging'' (description (disengage_command m :: 's command))"
proof -
  have q: "commands (robot (snd (disengage True w))) =
      commands (robot w) @ [disengage_command (self w)]"
    by (simp add: enqueue_state_disengage)
  have qe: "commands (robot (snd (engage True w))) =
      commands (robot w) @ [engage_command (self w)]"
    by (simp add: enqueue_state_engage)
  have r: "snd (disengage enqueue w) = create_command (disengage_command (self w)) enqueue w"
    by (simp add: disengage_def Let_def)
  have d: "description (disengage_command m' :: 's command) =
      ''Engaging Magbead at mosfet #'' @ handle_str (motor m')" for m'
    by (simp add: disengage_command_def)
  have de: "description (engage_command m' :: 's command) =
      ''Engaging Magbead at mosfet #'' @ handle_str (motor m')" for m'
    by (simp add: engage_command_def)
  show ?thesis
    unfolding Let_def q qe
    by (simp add: d de r)
qed

section \<open>Identity of a constructed facade\<close>

text \<open>
  The name is not always the supplied one: the empty string is replaced, because the
  source tests \<^verbatim>\<open>not name\<close>.
\<close>

theorem supplied_name_counterexample:
  "name (self (Magbead_init 0 (Some '''') 0 None robot0)) = ''Magbead''
   \<and> name (self (Magbead_init 0 (Some '''') 0 None robot0)) \<noteq> ''''"
  by (simp add: Magbead_init_self)

text \<open>
  Claim C6, as amended. After construction with any slot index \<open>i\<close> and any name
  argument, \<^verbatim>\<open>engaged\<close> is false and \<^verbatim>\<open>axis\<close> is \<^verbatim>\<open>M\<close> followed by the decimal
  rendering of \<open>i\<close> (slot 0 gives \<^verbatim>\<open>M0\<close>); \<^verbatim>\<open>name\<close> is the supplied name when a
  non-empty one is given, and \<^verbatim>\<open>Magbead\<close> when the name is omitted or empty.
\<close>

theorem init_facade_fields:
  "engaged (self (Magbead_init this nm i c r)) = False
   \<and> axis (self (Magbead_init this nm i c r)) = ''M'' @ str_int i
   \<and> axis (self (Magbead_init this nm 0 c r)) = ''M0''
   \<and> name (self (Magbead_init this None i c r)) = ''Magbead''
   \<and> name (self (Magbead_init this (Some '''') i c r)) = ''Magbead''
   \<and> (n \<noteq> [] \<longrightarrow> name (self (Magbead_init this (Some n) i c r)) = n)"
proof -
  have "str_int 0 = ''0''"
    by (simp add: str_int_def str_nat.simps digit_char_def)
  then show ?thesis
    by (simp add: Magbead_init_self)
qed

theorem init_facade_fields_witness:
  "''Mag1'' \<noteq> []
   \<and> name (self (Magbead_init 0 (Some ''Mag1'') 12 None robot0)) = ''Mag1''
   \<and> axis (self (Magbead_init 0 (Some ''Mag1'') 12 None robot0)) = ''M12''
   \<and> \<not> engaged (self (Magbead_init 0 (Some ''Mag1'') 12 None robot0))"
proof -
  have n: "''Mag1'' \<noteq> []" by simp
  have s: "str_int 12 = ''12''"
    by (simp add: str_int_def str_nat.simps digit_char_def)
  from n init_facade_fields [of 0 "Some ''Mag1''" 12 None robot0 "''Mag1''"]
  show ?thesis by (simp add: s)
qed

text \<open>
  Claim C10. A facade constructed with the empty string as its name gets the name
  \<^verbatim>\<open>Magbead\<close>, as one constructed with the name omitted does; its calibration key is
  \<^verbatim>\<open>M\<close>, the slot, and \<^verbatim>\<open>:Magbead\<close>, and not \<^verbatim>\<open>M\<close>, the slot, and a bare colon.
\<close>

theorem empty_name_defaults:
  "name (self (Magbead_init this (Some '''') i c r)) = ''Magbead''
   \<and> calibration_key (self (Magbead_init this (Some '''') i c r)) = ''M'' @ str_int i @ '':Magbead''
   \<and> calibration_key (self (Magbead_init this (Some '''') i c r)) \<noteq> ''M'' @ str_int i @ '':''
   \<and> self (Magbead_init this (Some '''') i c r) = self (Magbead_init this None i c r)"
proof -
  have "self (Magbead_init this (Some []) i c r) = self (Magbead_init this None i c r)"
    by (simp add: Magbead_init_def Let_def)
  then show ?thesis
    by (simp add: Magbead_init_self)
qed

text \<open>
  Claim C7. The calibration key of a constructed facade is its \<^verbatim>\<open>axis\<close>, a colon and
  its \<^verbatim>\<open>name\<close>. Two facades have the same key exactly when they were constructed
  with the same slot index and have the same name: facades that differ in the slot index
  or in the name have different keys, and the same slot index and name argument give the
  same key on any platform. No setup phase of the class writes the key after construction.
\<close>

theorem calibration_key_determined:
  "(let a = self (Magbead_init t1 n1 i1 c1 r1);
        b = self (Magbead_init t2 n2 i2 c2 r2)
    in calibration_key a = axis a @ '':'' @ name a
     \<and> (calibration_key a = calibration_key b) = (i1 = i2 \<and> name a = name b)
     \<and> (i1 \<noteq> i2 \<longrightarrow> calibration_key a \<noteq> calibration_key b)
     \<and> (name a \<noteq> name b \<longrightarrow> calibration_key a \<noteq> calibration_key b))
   \<and> calibration_key (self (Magbead_init t1 nm i c1 r1)) =
       calibration_key (self (Magbead_init t2 nm i c2 r2))
   \<and> calibration_key (engage_setup m) = calibration_key m
   \<and> calibration_key (disengage_setup m) = calibration_key m
   \<and> calibration_key (delay_setup m) = calibration_key m"
proof -
  let ?a = "self (Magbead_init t1 n1 i1 c1 r1)"
  let ?b = "self (Magbead_init t2 n2 i2 c2 r2)"
  have k: "calibration_key ?a = axis ?a @ '':'' @ name ?a"
    by (simp add: Magbead_init_self)
  have e: "(calibration_key ?a = calibration_key ?b) = (i1 = i2 \<and> name ?a = name ?b)"
    by (rule calibration_key_eq_iff)
  have s: "calibration_key (self (Magbead_init t1 nm i c1 r1)) =
       calibration_key (self (Magbead_init t2 nm i c2 r2))"
    by (simp add: Magbead_init_self)
  have f: "calibration_key (engage_setup m) = calibration_key m"
    "calibration_key (disengage_setup m) = calibration_key m"
    "calibration_key (delay_setup m) = calibration_key m"
    by (simp_all add: engage_setup_def disengage_setup_def delay_setup_def)
  from k e s f show ?thesis unfolding Let_def by blast
qed

theorem calibration_key_determined_witness:
  "(0::int) \<noteq> 1
   \<and> calibration_key (self (Magbead_init 0 None 0 None robot0)) \<noteq>
     calibration_key (self (Magbead_init 0 None 1 None robot0))
   \<and> name (self (Magbead_init 0 (Some ''left'') 0 None robot0)) \<noteq>
     name (self (Magbead_init 0 (Some ''right'') 0 None robot0))
   \<and> calibration_key (self (Magbead_init 0 (Some ''left'') 0 None robot0)) \<noteq>
     calibration_key (self (Magbead_init 0 (Some ''right'') 0 None robot0))"
proof -
  have d: "(0::int) \<noteq> 1" by simp
  have n: "name (self (Magbead_init 0 (Some ''left'') 0 None robot0)) \<noteq>
     name (self (Magbead_init 0 (Some ''right'') 0 None robot0))"
    by (simp add: Magbead_init_self)
  have "calibration_key (self (Magbead_init 0 None 0 None robot0)) \<noteq>
     calibration_key (self (Magbead_init 0 None 1 None robot0))"
    using calibration_key_determined [of 0 None 0 None robot0 0 None 1 None robot0] d
    unfolding Let_def by blast
  moreover have "calibration_key (self (Magbead_init 0 (Some ''left'') 0 None robot0)) \<noteq>
     calibration_key (self (Magbead_init 0 (Some ''right'') 0 None robot0))"
    using calibration_key_determined
      [of 0 "Some ''left''" 0 None robot0 0 "Some ''right''" 0 None robot0] n
    unfolding Let_def by blast
  ultimately show ?thesis using d n by blast
qed

end
